theory Spec2Isabelle
  imports Main "HOL-Library.Multiset"
begin

section \<open>The editor of \<^verbatim>\<open>src/Editor.tsx\<close>: data\<close>

text \<open>
  A point of a stroke, \<^verbatim>\<open>{ x: number; y: number }\<close>. The coordinates are differences of
  page coordinates and layout offsets, taken as integers. The fields are called
  \<open>ptx\<close> and \<open>pty\<close> to keep \<open>x\<close> and \<open>y\<close> free as variables.
\<close>

record point =
  ptx :: int
  pty :: int

text \<open>
  \<^verbatim>\<open>interface Line { size?: number; pts: {x, y}[] }\<close>. The size is a brush size (the
  slider of the editor delivers 10 to 150, the initial value is 40), a natural number;
  \<open>None\<close> is the absent field.
\<close>

record line =
  size_opt :: "nat option"
  pts :: "point list"

text \<open>An image element: its source and its dimensions.\<close>

record image =
  src :: string
  img_width :: nat
  img_height :: nat

text \<open>
  What a canvas holds, as the list of the drawing operations made on it since it was
  last reset, oldest first. A stroke keeps the style, the cap, the join, the line width
  and the path it was made with.
\<close>

datatype paint =
  Stroked string string string nat "point list list"
| Image image int int
| Clear int int nat nat

text \<open>
  A canvas element together with its 2d context: the dimensions and layout offsets of the
  element, the drawing state of the context, its current path (a list of subpaths) and the
  bitmap.
\<close>

record canvas =
  width :: nat
  height :: nat
  offsetLeft :: int
  offsetTop :: int
  strokeStyle :: string
  lineCap :: string
  lineJoin :: string
  lineWidth :: nat
  path :: "point list list"
  bitmap :: "paint list"

text \<open>A thrown value: an \<^verbatim>\<open>Error\<close> with its message, or a rejection with any other value.\<close>

datatype error = Error string | TypeError string | Rejection string

text \<open>A handler returns, or throws leaving the state as it was at the throw.\<close>

datatype 'a outcome = Returned 'a | Threw error 'a

text \<open>The events given to \<^verbatim>\<open>firebase.logEvent\<close>. The duration of a request is a clock
  reading and is left out.\<close>

datatype log_event =
  ImageLoaded nat nat
| InpaintStart
| InpaintProcessed nat nat
| InpaintFailed error
| Download

datatype listener = CanvasMousemoveOnPaint | WindowMouseupOnMouseUp

text \<open>What \<^verbatim>\<open>maskCanvas.toDataURL()\<close> encodes: the dimensions and the bitmap.\<close>

type_synonym dataURL = "nat \<times> nat \<times> paint list"

text \<open>
  The calls the handlers make on state setters, listener registries and collaborators,
  in the order they are made.
\<close>

datatype effect =
  SetIsInpaintingLoading bool
| AddEventListener listener
| RemoveEventListener listener
| RefreshCanvasMask
| LogEvent log_event
| GetAppCheckToken
| Inpaint string dataURL string
| LoadImage string
| Alert string

text \<open>
  The state of the component: the values of its \<^verbatim>\<open>useState\<close> hooks (lines 41 to 53), the
  two listeners its handlers attach and detach, and the trace of effects. \<open>context2d\<close>
  is the \<^verbatim>\<open>context\<close> of the source (the visible canvas with its 2d context),
  \<open>image_file\<close> its \<^verbatim>\<open>file\<close>, and
  \<open>mask_getContext\<close> says whether \<^verbatim>\<open>maskCanvas.getContext('2d')\<close> yields a context.
\<close>

record editor =
  image_file :: string
  brushSize :: nat
  original :: image
  isOriginalLoaded :: bool
  render :: image
  context2d :: "canvas option"
  maskCanvas :: canvas
  mask_getContext :: bool
  lines :: "line list"
  isInpaintingLoading :: bool
  firebase :: bool
  onPaint_attached :: bool
  onMouseUp_attached :: bool
  effects :: "effect list"

record mouse_event =
  pageX :: int
  pageY :: int

text \<open>
  The collaborators a submission awaits: the token of \<^verbatim>\<open>firebase.getAppCheckToken()\<close>,
  the result of \<^verbatim>\<open>inpaint(file, mask, token)\<close> (a rejection, or the value it resolves
  with, which may be absent or empty), and whether the bytes of a result decode (to an
  image of some dimensions).
\<close>

record env =
  getAppCheckToken :: "error + string"
  inpaint :: "string \<Rightarrow> dataURL \<Rightarrow> string \<Rightarrow> error + string option"
  decode :: "string \<Rightarrow> error + nat \<times> nat"

section \<open>The canvas operations the editor calls\<close>

text \<open>
  The 2d context of the platform, as far as the editor uses it. Assigning the width or the
  height of a canvas element clears its bitmap and resets its context to the defaults;
  assigning a line width of zero is ignored; \<^verbatim>\<open>lineTo\<close> on an empty path starts a subpath.
\<close>

definition new_canvas :: canvas where
  "new_canvas = \<lparr>width = 300, height = 150, offsetLeft = 0, offsetTop = 0,
     strokeStyle = ''#000000'', lineCap = ''butt'', lineJoin = ''miter'', lineWidth = 1,
     path = [], bitmap = []\<rparr>"

definition reset_context :: "canvas \<Rightarrow> canvas" where
  "reset_context c = c\<lparr>strokeStyle := ''#000000'', lineCap := ''butt'', lineJoin := ''miter'',
     lineWidth := 1, path := [], bitmap := []\<rparr>"

definition set_width :: "canvas \<Rightarrow> nat \<Rightarrow> canvas" where
  "set_width c w = (reset_context c)\<lparr>width := w\<rparr>"

definition set_height :: "canvas \<Rightarrow> nat \<Rightarrow> canvas" where
  "set_height c h = (reset_context c)\<lparr>height := h\<rparr>"

definition set_lineWidth :: "canvas \<Rightarrow> nat \<Rightarrow> canvas" where
  "set_lineWidth c w = (if w = 0 then c else c\<lparr>lineWidth := w\<rparr>)"

definition beginPath :: "canvas \<Rightarrow> canvas" where
  "beginPath c = c\<lparr>path := []\<rparr>"

definition moveTo :: "canvas \<Rightarrow> point \<Rightarrow> canvas" where
  "moveTo c p = c\<lparr>path := path c @ [[p]]\<rparr>"

definition lineTo :: "canvas \<Rightarrow> point \<Rightarrow> canvas" where
  "lineTo c p = (case path c of
      [] \<Rightarrow> c\<lparr>path := [[p]]\<rparr>
    | _ # _ \<Rightarrow> c\<lparr>path := butlast (path c) @ [last (path c) @ [p]]\<rparr>)"

definition stroke :: "canvas \<Rightarrow> canvas" where
  "stroke c = c\<lparr>bitmap := bitmap c @
     [Stroked (strokeStyle c) (lineCap c) (lineJoin c) (lineWidth c) (path c)]\<rparr>"

definition clearRect :: "canvas \<Rightarrow> int \<Rightarrow> int \<Rightarrow> nat \<Rightarrow> nat \<Rightarrow> canvas" where
  "clearRect c x y w h = c\<lparr>bitmap := bitmap c @ [Clear x y w h]\<rparr>"

definition drawImage :: "canvas \<Rightarrow> image \<Rightarrow> int \<Rightarrow> int \<Rightarrow> canvas" where
  "drawImage c img dx dy = c\<lparr>bitmap := bitmap c @ [Image img dx dy]\<rparr>"

definition toDataURL :: "canvas \<Rightarrow> dataURL" where
  "toDataURL c = (width c, height c, bitmap c)"

text \<open>
  Which pixels a bitmap shows stroke ink on. The outline of a stroked path (which pixels
  lie within half the line width of the path, with the given cap and join) is the
  platform's and is a parameter \<open>g\<close>. A stroke adds its outline; clearing a rectangle and
  drawing an image remove the ink under them.
\<close>

type_synonym geometry = "string \<Rightarrow> string \<Rightarrow> nat \<Rightarrow> point list list \<Rightarrow> int \<times> int \<Rightarrow> bool"

definition in_rect :: "int \<Rightarrow> int \<Rightarrow> nat \<Rightarrow> nat \<Rightarrow> int \<times> int \<Rightarrow> bool" where
  "in_rect x y w h p = (x \<le> fst p \<and> fst p < x + int w \<and> y \<le> snd p \<and> snd p < y + int h)"

fun apply_paint :: "geometry \<Rightarrow> int \<times> int \<Rightarrow> bool \<Rightarrow> paint \<Rightarrow> bool" where
  "apply_paint g p b (Stroked st cap join w pth) = (b \<or> g cap join w pth p)"
| "apply_paint g p b (Clear x y w h) = (b \<and> \<not> in_rect x y w h p)"
| "apply_paint g p b (Image img dx dy) = (b \<and> \<not> in_rect dx dy (img_width img) (img_height img) p)"

definition painted :: "geometry \<Rightarrow> paint list \<Rightarrow> int \<times> int \<Rightarrow> bool" where
  "painted g ops p = foldl (apply_paint g p) False ops"

section \<open>\<^verbatim>\<open>drawLines\<close> (lines 18 to 37)\<close>

definition falsy_size :: "nat option \<Rightarrow> bool" where
  "falsy_size so = (case so of None \<Rightarrow> True | Some n \<Rightarrow> n = 0)"

text \<open>The body of \<^verbatim>\<open>lines.forEach\<close>, for one line.\<close>

definition drawLine :: "canvas \<Rightarrow> line \<Rightarrow> canvas" where
  "drawLine ctx l =
     (if pts l = [] \<or> falsy_size (size_opt l) then ctx
      else (case (size_opt l, pts l) of
          (Some sz, p0 # _) \<Rightarrow>
            stroke (foldl lineTo (moveTo (beginPath (set_lineWidth ctx sz)) p0) (pts l))
        | _ \<Rightarrow> ctx))"

definition drawLines :: "canvas \<Rightarrow> line list \<Rightarrow> string \<Rightarrow> canvas" where
  "drawLines ctx ls color =
     foldl drawLine (ctx\<lparr>strokeStyle := color, lineCap := ''round'', lineJoin := ''round''\<rparr>) ls"

text \<open>The default of the parameter \<^verbatim>\<open>color\<close>.\<close>

definition default_color :: string where
  "default_color = ''rgba(255, 0, 0, 0.5)''"

section \<open>\<^verbatim>\<open>draw\<close> (lines 55 to 67) and \<^verbatim>\<open>refreshCanvasMask\<close> (lines 69 to 80)\<close>

text \<open>
  \<^verbatim>\<open>lines[lines.length - 1]\<close>: the last line, or \<^verbatim>\<open>undefined\<close> when there is none, which
  \<^verbatim>\<open>drawLines\<close> skips (\<^verbatim>\<open>!line?.pts.length\<close>).
\<close>

definition currentLine :: "editor \<Rightarrow> line list" where
  "currentLine s = (if lines s = [] then [] else [last (lines s)])"

text \<open>The image \<^verbatim>\<open>draw\<close> shows: \<^verbatim>\<open>render\<close> once it has a source, the original before.\<close>

definition base_layer :: "editor \<Rightarrow> image" where
  "base_layer s = (if src (render s) \<noteq> [] then render s else original s)"

definition draw :: "editor \<Rightarrow> editor" where
  "draw s = (case context2d s of
      None \<Rightarrow> s
    | Some context \<Rightarrow>
        let c1 = clearRect context 0 0 (width context) (height context);
            c2 = (if src (render s) \<noteq> [] then drawImage c1 (render s) 0 0
                  else drawImage c1 (original s) 0 0)
        in s\<lparr>context2d := Some (drawLines c2 (currentLine s) default_color)\<rparr>)"

text \<open>
  \<^verbatim>\<open>refreshCanvasMask\<close>. The check of line 70 fails without a context and on a width or
  height of zero. The call is recorded in the trace; the assignments of lines 73 and 74
  reset the mask canvas before \<^verbatim>\<open>getContext\<close> is asked, so they stay when that throws.
\<close>

definition invalid_size :: "editor \<Rightarrow> bool" where
  "invalid_size s = (case context2d s of
      None \<Rightarrow> True
    | Some context \<Rightarrow> width context = 0 \<or> height context = 0)"

definition refreshCanvasMask :: "editor \<Rightarrow> editor outcome" where
  "refreshCanvasMask s0 =
     (let s = s0\<lparr>effects := effects s0 @ [RefreshCanvasMask]\<rparr> in
      case context2d s of
        None \<Rightarrow> Threw (Error ''canvas has invalid size'') s
      | Some context \<Rightarrow>
          if width context = 0 \<or> height context = 0
          then Threw (Error ''canvas has invalid size'') s
          else
            let m = set_height (set_width (maskCanvas s) (width context)) (height context);
                s1 = s\<lparr>maskCanvas := m\<rparr>
            in if \<not> mask_getContext s1
               then Threw (Error ''could not retrieve mask canvas'') s1
               else Returned (s1\<lparr>maskCanvas := drawLines m (lines s1) ''white''\<rparr>))"

section \<open>The handlers (lines 98 to 188)\<close>

text \<open>
  The effect of lines 99 to 188 binds the handlers once the collaborator and the canvas
  exist. Each handler is a function of the state it is called on; none of them reads
  \<^verbatim>\<open>isInpaintingLoading\<close>.
\<close>

definition setIsInpaintingLoading :: "editor \<Rightarrow> bool \<Rightarrow> editor" where
  "setIsInpaintingLoading s b =
     s\<lparr>isInpaintingLoading := b, effects := effects s @ [SetIsInpaintingLoading b]\<rparr>"

text \<open>\<^verbatim>\<open>firebase?.logEvent(...)\<close>: nothing is logged without the collaborator.\<close>

definition logEvent :: "editor \<Rightarrow> log_event \<Rightarrow> editor" where
  "logEvent s e = (if firebase s then s\<lparr>effects := effects s @ [LogEvent e]\<rparr> else s)"

definition addEventListener :: "editor \<Rightarrow> listener \<Rightarrow> editor" where
  "addEventListener s l =
     (let s1 = s\<lparr>effects := effects s @ [AddEventListener l]\<rparr> in
      case l of
        CanvasMousemoveOnPaint \<Rightarrow> s1\<lparr>onPaint_attached := True\<rparr>
      | WindowMouseupOnMouseUp \<Rightarrow> s1\<lparr>onMouseUp_attached := True\<rparr>)"

definition removeEventListener :: "editor \<Rightarrow> listener \<Rightarrow> editor" where
  "removeEventListener s l =
     (let s1 = s\<lparr>effects := effects s @ [RemoveEventListener l]\<rparr> in
      case l of
        CanvasMousemoveOnPaint \<Rightarrow> s1\<lparr>onPaint_attached := False\<rparr>
      | WindowMouseupOnMouseUp \<Rightarrow> s1\<lparr>onMouseUp_attached := False\<rparr>)"

text \<open>
  The point a mouse event maps to (lines 112 to 115): the page position minus the offset of
  the canvas.
\<close>

definition event_point :: "canvas \<Rightarrow> mouse_event \<Rightarrow> point" where
  "event_point canvas ev =
     \<lparr>ptx = pageX ev - offsetLeft canvas, pty = pageY ev - offsetTop canvas\<rparr>"

text \<open>
  \<^verbatim>\<open>onPaint\<close> (lines 110 to 117). The handlers exist only once the canvas does (lines 103
  to 106). With no line in the history \<^verbatim>\<open>currLine\<close> is \<^verbatim>\<open>undefined\<close> and reading
  \<^verbatim>\<open>currLine.pts\<close> throws.
\<close>

definition onPaint :: "editor \<Rightarrow> mouse_event \<Rightarrow> editor outcome" where
  "onPaint s ev = (case context2d s of
      None \<Rightarrow> Returned s
    | Some canvas \<Rightarrow>
        if lines s = [] then Threw (TypeError ''currLine is undefined'') s
        else
          let currLine = last (lines s);
              currLine' = currLine\<lparr>pts := pts currLine @ [event_point canvas ev]\<rparr>
          in Returned (draw (s\<lparr>lines := butlast (lines s) @ [currLine']\<rparr>)))"

text \<open>\<^verbatim>\<open>canvas.onmousedown\<close> (lines 156 to 165).\<close>

definition onmousedown :: "editor \<Rightarrow> mouse_event \<Rightarrow> editor outcome" where
  "onmousedown s e =
     (if src (original s) = [] then Returned s
      else if lines s = [] then Threw (TypeError ''currLine is undefined'') s
      else
        let currLine = last (lines s);
            s1 = s\<lparr>lines := butlast (lines s) @ [currLine\<lparr>size_opt := Some (brushSize s)\<rparr>]\<rparr>;
            s2 = addEventListener s1 CanvasMousemoveOnPaint;
            s3 = addEventListener s2 WindowMouseupOnMouseUp
        in onPaint s3 e)"

text \<open>
  Modelled from the spec: \<^verbatim>\<open>loadImage\<close> of \<^verbatim>\<open>./utils\<close>, which is not among the sources.
  It decodes the bytes of a result into the image it is given: when they decode, the image
  shows them; when they do not, the call is rejected and the image is left as it was
  (section 4.5: on an image decode error the Base Layer is left unchanged).
\<close>

definition loadImage :: "env \<Rightarrow> editor \<Rightarrow> string \<Rightarrow> editor outcome" where
  "loadImage ev s0 res =
     (let s = s0\<lparr>effects := effects s0 @ [LoadImage res]\<rparr> in
      case decode ev res of
        Inl e \<Rightarrow> Threw e s
      | Inr (w, h) \<Rightarrow> Returned (s\<lparr>render := \<lparr>src = res, img_width = w, img_height = h\<rparr>\<rparr>))"

text \<open>
  \<^verbatim>\<open>onMouseUp\<close> (lines 118 to 152), in three parts. The first runs from the guard to the
  first \<^verbatim>\<open>await\<close>: the call of \<^verbatim>\<open>getAppCheckToken\<close> is made, its result is awaited.
  \<^verbatim>\<open>refreshCanvasMask()\<close> is called outside the \<^verbatim>\<open>try\<close>: what it throws leaves the handler.
\<close>

definition onMouseUp_sync :: "editor \<Rightarrow> editor outcome" where
  "onMouseUp_sync s =
     (let s1 = setIsInpaintingLoading s True;
          s2 = removeEventListener s1 CanvasMousemoveOnPaint;
          s3 = removeEventListener s2 WindowMouseupOnMouseUp
      in case refreshCanvasMask s3 of
           Threw e s4 \<Rightarrow> Threw e s4
         | Returned s4 \<Rightarrow>
             let s5 = logEvent s4 InpaintStart
             in Returned (s5\<lparr>effects := effects s5 @ [GetAppCheckToken]\<rparr>))"

text \<open>
  The rest of the \<^verbatim>\<open>try\<close> block (lines 129 to 140), from the token on. The three awaits
  are taken in one step: between them no handler of the editor changes what the block
  reads.
\<close>

definition onMouseUp_try :: "env \<Rightarrow> editor \<Rightarrow> editor outcome" where
  "onMouseUp_try ev s = (case getAppCheckToken ev of
      Inl e \<Rightarrow> Threw e s
    | Inr token \<Rightarrow>
        let mask = toDataURL (maskCanvas s);
            s1 = s\<lparr>effects := effects s @ [Inpaint (image_file s) mask token]\<rparr>
        in (case inpaint ev (image_file s) mask token of
              Inl e \<Rightarrow> Threw e s1
            | Inr None \<Rightarrow> Threw (Error ''empty response'') s1
            | Inr (Some res) \<Rightarrow>
                if res = [] then Threw (Error ''empty response'') s1
                else (case loadImage ev s1 res of
                    Threw e s2 \<Rightarrow> Threw e s2
                  | Returned s2 \<Rightarrow>
                      Returned (logEvent s2
                        (InpaintProcessed (img_width (original s2)) (img_height (original s2)))))))"

text \<open>\<^verbatim>\<open>e.message ? e.message : e.toString()\<close>.\<close>

fun alert_text :: "error \<Rightarrow> string" where
  "alert_text (Error m) = (if m \<noteq> [] then m else ''Error'')"
| "alert_text (TypeError m) = (if m \<noteq> [] then m else ''TypeError'')"
| "alert_text (Rejection v) = v"

text \<open>The \<^verbatim>\<open>catch\<close> block (lines 141 to 147).\<close>

definition onMouseUp_catch :: "error \<Rightarrow> editor \<Rightarrow> editor" where
  "onMouseUp_catch e s =
     (let s1 = logEvent s (InpaintFailed e)
      in s1\<lparr>effects := effects s1 @ [Alert (alert_text e)]\<rparr>)"

text \<open>From the token to the end of the handler (lines 129 to 151).\<close>

definition onMouseUp_resume :: "env \<Rightarrow> editor \<Rightarrow> editor" where
  "onMouseUp_resume ev s =
     (let s1 = (case onMouseUp_try ev s of
                  Returned s' \<Rightarrow> s'
                | Threw e s' \<Rightarrow> onMouseUp_catch e s');
          s2 = s1\<lparr>lines := lines s1 @ [\<lparr>size_opt = None, pts = []\<rparr>]\<rparr>;
          s3 = setIsInpaintingLoading s2 False
      in draw s3)"

definition onMouseUp :: "env \<Rightarrow> editor \<Rightarrow> editor outcome" where
  "onMouseUp ev s =
     (if src (original s) = [] then Returned s
      else (case onMouseUp_sync s of
          Threw e s' \<Rightarrow> Threw e s'
        | Returned s' \<Rightarrow> Returned (onMouseUp_resume ev s')))"

text \<open>The effect that runs once the original image is loaded (lines 83 to 96).\<close>

definition image_loaded_effect :: "editor \<Rightarrow> editor" where
  "image_loaded_effect s = (case context2d s of
      None \<Rightarrow> s
    | Some canvas \<Rightarrow>
        if isOriginalLoaded s then
          let s1 = logEvent s (ImageLoaded (img_width (original s)) (img_height (original s)));
              canvas' = set_height (set_width canvas (img_width (original s)))
                          (img_height (original s))
          in draw (s1\<lparr>context2d := Some canvas'\<rparr>)
        else s)"

section \<open>The element around the canvas (lines 200 to 206)\<close>





fun state_of :: "'a outcome \<Rightarrow> 'a" where
  "state_of (Returned s) = s"
| "state_of (Threw e s) = s"

section \<open>Notions the properties are stated with\<close>

text \<open>
  What one line of the history leaves on a bitmap when \<^verbatim>\<open>drawLines\<close> draws it in a colour:
  nothing, or one stroke of its size through its points (the first point is both the start
  of the subpath and the first target of \<^verbatim>\<open>lineTo\<close>).
\<close>

definition line_strokes :: "string \<Rightarrow> line \<Rightarrow> paint list" where
  "line_strokes color l =
     (case (size_opt l, pts l) of
        (Some sz, p0 # ps) \<Rightarrow>
          if sz = 0 then [] else [Stroked color ''round'' ''round'' sz [p0 # p0 # ps]]
      | _ \<Rightarrow> [])"

text \<open>The mask canvas after \<^verbatim>\<open>refreshCanvasMask\<close> has run on a history, and its ink.\<close>

definition rasterized :: "editor \<Rightarrow> line list \<Rightarrow> canvas" where
  "rasterized s ls = maskCanvas (state_of (refreshCanvasMask (s\<lparr>lines := ls\<rparr>)))"

definition mask_ink :: "geometry \<Rightarrow> editor \<Rightarrow> line list \<Rightarrow> int \<times> int \<Rightarrow> bool" where
  "mask_ink g s ls p = painted g (bitmap (rasterized s ls)) p"

text \<open>The effects one call of \<^verbatim>\<open>onMouseUp\<close> adds to the trace.\<close>

definition submission_effects :: "env \<Rightarrow> editor \<Rightarrow> effect list" where
  "submission_effects en s = drop (length (effects s)) (effects (state_of (onMouseUp en s)))"

fun index_of :: "'a \<Rightarrow> 'a list \<Rightarrow> nat" where
  "index_of a [] = 0"
| "index_of a (b # bs) = (if a = b then 0 else Suc (index_of a bs))"

text \<open>Both occur, and the first occurrence of \<open>a\<close> is before the first of \<open>b\<close>.\<close>

definition precedes :: "'a \<Rightarrow> 'a \<Rightarrow> 'a list \<Rightarrow> bool" where
  "precedes a b es = (index_of a es < index_of b es \<and> index_of b es < length es)"

text \<open>
  The order of section 4.5 of the specification, in its words: the listeners are detached,
  then the lock is set, then the mask is rasterized, then the token is fetched, then the
  request is issued.
\<close>

definition spec_order :: "string \<Rightarrow> dataURL \<Rightarrow> string \<Rightarrow> effect list \<Rightarrow> bool" where
  "spec_order f m t es =
     (precedes (RemoveEventListener CanvasMousemoveOnPaint) (SetIsInpaintingLoading True) es \<and>
      precedes (RemoveEventListener WindowMouseupOnMouseUp) (SetIsInpaintingLoading True) es \<and>
      precedes (SetIsInpaintingLoading True) RefreshCanvasMask es \<and>
      precedes RefreshCanvasMask GetAppCheckToken es \<and>
      precedes GetAppCheckToken (Inpaint f m t) es)"

section \<open>A session\<close>

text \<open>
  The scenario of section 8 of the specification: an image of 800 by 600 is loaded into a
  canvas at offset (20, 10), the pointer is pressed at (100, 100) of the canvas with brush
  size 40 and moved to (150, 100); then it is released.
\<close>

definition session_mounted :: editor where
  "session_mounted = \<lparr>image_file = ''photo.png'', brushSize = 40,
     original = \<lparr>src = ''blob:photo'', img_width = 800, img_height = 600\<rparr>,
     isOriginalLoaded = True,
     render = \<lparr>src = [], img_width = 0, img_height = 0\<rparr>,
     context2d = Some (new_canvas\<lparr>offsetLeft := 20, offsetTop := 10\<rparr>),
     maskCanvas = new_canvas, mask_getContext = True,
     lines = [\<lparr>size_opt = None, pts = []\<rparr>],
     isInpaintingLoading = False, firebase = True,
     onPaint_attached = False, onMouseUp_attached = False, effects = []\<rparr>"

definition session_loaded :: editor where
  "session_loaded = image_loaded_effect session_mounted"

definition session_pressed :: editor where
  "session_pressed = state_of (onmousedown session_loaded \<lparr>pageX = 120, pageY = 110\<rparr>)"

definition session_drawn :: editor where
  "session_drawn = state_of (onPaint session_pressed \<lparr>pageX = 170, pageY = 110\<rparr>)"


text \<open>The same session with an image that has no extent, loaded and pressed on.\<close>

definition session_zero :: editor where
  "session_zero = image_loaded_effect
     (session_mounted\<lparr>original := \<lparr>src = ''blob:photo'', img_width = 0, img_height = 0\<rparr>\<rparr>)"


text \<open>A service that answers, one that rejects, and one that resolves with nothing.\<close>

definition env_ok :: env where
  "env_ok = \<lparr>getAppCheckToken = Inr ''token'',
     inpaint = (\<lambda>f m t. Inr (Some ''blob:result'')),
     decode = (\<lambda>r. Inr (800, 600))\<rparr>"

definition env_reject :: env where
  "env_reject = env_ok\<lparr>inpaint := (\<lambda>f m t. Inl (Rejection ''503''))\<rparr>"

definition env_empty :: env where
  "env_empty = env_ok\<lparr>inpaint := (\<lambda>f m t. Inr (Some []))\<rparr>"

text \<open>
  An outline to evaluate with: a pixel is inked when it lies within half the line width
  of a vertex of the path, in both coordinates.
\<close>

definition square_brush :: geometry where
  "square_brush cap join w pth p =
     list_ex (\<lambda>q. \<bar>fst p - ptx q\<bar> * 2 \<le> int w \<and> \<bar>snd p - pty q\<bar> * 2 \<le> int w) (concat pth)"

section \<open>What \<^verbatim>\<open>drawLines\<close> leaves on a canvas\<close>

lemma foldl_lineTo:
  "path c \<noteq> [] \<Longrightarrow>
   foldl lineTo c ps = c\<lparr>path := butlast (path c) @ [last (path c) @ ps]\<rparr>"
proof (induction ps arbitrary: c)
  case Nil
  then show ?case by simp
next
  case (Cons p ps)
  have "path (lineTo c p) \<noteq> []" using Cons.prems by (simp add: lineTo_def split: list.splits)
  then show ?case using Cons.prems Cons.IH [of "lineTo c p"]
    by (simp add: lineTo_def split: list.splits)
qed

lemma drawLine_skip:
  "pts l = [] \<or> falsy_size (size_opt l) \<Longrightarrow> drawLine c l = c"
  by (simp add: drawLine_def)

lemma drawLine_stroke:
  assumes "size_opt l = Some sz" and "sz \<noteq> 0" and "pts l = p0 # ps"
  shows "drawLine c l = c\<lparr>lineWidth := sz, path := [p0 # p0 # ps],
           bitmap := bitmap c @ [Stroked (strokeStyle c) (lineCap c) (lineJoin c) sz [p0 # p0 # ps]]\<rparr>"
proof -
  let ?c0 = "moveTo (beginPath (set_lineWidth c sz)) p0"
  have p: "path ?c0 = [[p0]]"
    by (simp add: moveTo_def beginPath_def)
  have f: "foldl lineTo ?c0 (p0 # ps) = ?c0\<lparr>path := [p0 # p0 # ps]\<rparr>"
    using foldl_lineTo [of ?c0 "p0 # ps"] p by (simp del: foldl_Cons)
  have d: "drawLine c l = stroke (foldl lineTo ?c0 (p0 # ps))"
    using assms by (simp add: drawLine_def falsy_size_def del: foldl_Cons)
  show ?thesis
    unfolding d f using assms(2)
    by (simp add: stroke_def moveTo_def beginPath_def set_lineWidth_def)
qed

lemma reset_drawLine: "reset_context (drawLine c l) = reset_context c"
proof (cases "pts l = [] \<or> falsy_size (size_opt l)")
  case True
  then show ?thesis by (simp add: drawLine_skip)
next
  case False
  then obtain sz p0 ps where "size_opt l = Some sz" "sz \<noteq> 0" "pts l = p0 # ps"
    by (cases "size_opt l"; cases "pts l") (auto simp: falsy_size_def)
  then show ?thesis by (simp add: drawLine_stroke reset_context_def)
qed

lemma reset_foldl_drawLine: "reset_context (foldl drawLine c ls) = reset_context c"
  by (induction ls arbitrary: c) (simp_all add: reset_drawLine)

lemma drawLine_style:
  "strokeStyle (drawLine c l) = strokeStyle c \<and> lineCap (drawLine c l) = lineCap c \<and>
   lineJoin (drawLine c l) = lineJoin c \<and> width (drawLine c l) = width c \<and>
   height (drawLine c l) = height c"
proof (cases "pts l = [] \<or> falsy_size (size_opt l)")
  case True
  then show ?thesis by (simp add: drawLine_skip)
next
  case False
  then obtain sz p0 ps where "size_opt l = Some sz" "sz \<noteq> 0" "pts l = p0 # ps"
    by (cases "size_opt l"; cases "pts l") (auto simp: falsy_size_def)
  then show ?thesis by (simp add: drawLine_stroke)
qed

lemma drawLine_bitmap:
  "lineCap c = ''round'' \<Longrightarrow> lineJoin c = ''round'' \<Longrightarrow>
   bitmap (drawLine c l) = bitmap c @ line_strokes (strokeStyle c) l"
proof (cases "pts l = [] \<or> falsy_size (size_opt l)")
  case True
  then show ?thesis
    by (auto simp: drawLine_skip line_strokes_def falsy_size_def split: option.splits list.splits)
next
  case False
  assume a: "lineCap c = ''round''" "lineJoin c = ''round''"
  from False obtain sz p0 ps where "size_opt l = Some sz" "sz \<noteq> 0" "pts l = p0 # ps"
    by (cases "size_opt l"; cases "pts l") (auto simp: falsy_size_def)
  then show ?thesis using a by (simp add: drawLine_stroke line_strokes_def)
qed

lemma foldl_drawLine_bitmap:
  "lineCap c = ''round'' \<Longrightarrow> lineJoin c = ''round'' \<Longrightarrow>
   bitmap (foldl drawLine c ls) = bitmap c @ concat (map (line_strokes (strokeStyle c)) ls)"
proof (induction ls arbitrary: c)
  case Nil
  then show ?case by simp
next
  case (Cons l ls)
  then show ?case using Cons.IH [of "drawLine c l"]
    by (simp add: drawLine_style drawLine_bitmap)
qed

lemma drawLines_bitmap:
  "bitmap (drawLines c ls color) = bitmap c @ concat (map (line_strokes color) ls)"
  by (simp add: drawLines_def foldl_drawLine_bitmap)

lemma foldl_drawLine_dims:
  "width (foldl drawLine c ls) = width c \<and> height (foldl drawLine c ls) = height c"
  by (induction ls arbitrary: c) (simp_all add: drawLine_style)

lemma drawLines_dims:
  "width (drawLines c ls color) = width c \<and> height (drawLines c ls color) = height c"
  by (simp add: drawLines_def foldl_drawLine_dims)

lemma drawLines_skip:
  assumes "pts l = [] \<or> falsy_size (size_opt l)"
  shows "drawLines ctx (xs @ l # ys) color = drawLines ctx (xs @ ys) color"
  using assms by (simp add: drawLines_def drawLine_skip)

lemma reset_drawLines: "reset_context (drawLines c ls col) = reset_context c"
proof -
  have "reset_context (drawLines c ls col) =
      reset_context (c\<lparr>strokeStyle := col, lineCap := ''round'', lineJoin := ''round''\<rparr>)"
    unfolding drawLines_def by (rule reset_foldl_drawLine)
  then show ?thesis by (simp add: reset_context_def)
qed

lemma set_dims_bitmap: "bitmap (set_height (set_width m w) h) = []"
  by (simp add: set_height_def set_width_def reset_context_def)

lemma set_dims_dims:
  "width (set_height (set_width m w) h) = w \<and> height (set_height (set_width m w) h) = h"
  by (simp add: set_height_def set_width_def reset_context_def)

lemma set_dims_drawLines:
  "set_height (set_width (drawLines m ls col) w) h = set_height (set_width m w) h"
proof -
  have "set_width (drawLines m ls col) w = set_width m w"
    by (simp add: set_width_def reset_drawLines)
  then show ?thesis by simp
qed

lemma set_dims_twice:
  "set_height (set_width (set_height (set_width m w) h) w) h = set_height (set_width m w) h"
  by (simp add: set_height_def set_width_def reset_context_def)

text \<open>
  The ink of a bitmap of strokes is the ink of its strokes.
\<close>

lemma painted_line:
  "foldl (apply_paint g p) b (line_strokes col l) = (b \<or> painted g (line_strokes col l) p)"
  by (simp add: line_strokes_def painted_def split: option.splits list.splits)

lemma painted_concat:
  "foldl (apply_paint g p) b (concat (map (line_strokes col) ls)) =
   (b \<or> (\<exists>l\<in>set ls. painted g (line_strokes col l) p))"
proof (induction ls arbitrary: b)
  case Nil
  then show ?case by simp
next
  case (Cons l ls)
  show ?case
    by (simp add: Cons.IH painted_line [of g p b col l] disj_assoc)
qed

lemma painted_history:
  "painted g (concat (map (line_strokes col) ls)) p =
   (\<exists>l\<in>set ls. painted g (line_strokes col l) p)"
  using painted_concat [of g p False col ls] by (simp add: painted_def)

section \<open>The results of \<^verbatim>\<open>refreshCanvasMask\<close> and \<^verbatim>\<open>draw\<close>\<close>

lemma refreshCanvasMask_invalid:
  "invalid_size s \<Longrightarrow>
   refreshCanvasMask s =
     Threw (Error ''canvas has invalid size'') (s\<lparr>effects := effects s @ [RefreshCanvasMask]\<rparr>)"
  by (auto simp: refreshCanvasMask_def invalid_size_def Let_def split: option.splits)

lemma refreshCanvasMask_no_context:
  assumes "context2d s = Some c" and "width c \<noteq> 0" and "height c \<noteq> 0"
    and "\<not> mask_getContext s"
  shows "refreshCanvasMask s =
     Threw (Error ''could not retrieve mask canvas'')
       (s\<lparr>effects := effects s @ [RefreshCanvasMask],
          maskCanvas := set_height (set_width (maskCanvas s) (width c)) (height c)\<rparr>)"
  using assms by (simp add: refreshCanvasMask_def Let_def)

lemma refreshCanvasMask_returns:
  assumes "context2d s = Some c" and "width c \<noteq> 0" and "height c \<noteq> 0"
    and "mask_getContext s"
  shows "refreshCanvasMask s =
     Returned (s\<lparr>effects := effects s @ [RefreshCanvasMask],
       maskCanvas := drawLines (set_height (set_width (maskCanvas s) (width c)) (height c))
         (lines s) ''white''\<rparr>)"
  using assms by (simp add: refreshCanvasMask_def Let_def)


lemma rasterized_lines: "rasterized s (lines s) = maskCanvas (state_of (refreshCanvasMask s))"
  by (simp add: rasterized_def)

lemma rasterized_self:
  assumes "context2d s' = context2d s" and "maskCanvas s' = maskCanvas s"
    and "mask_getContext s' = mask_getContext s" and "lines s' = lines s"
  shows "maskCanvas (state_of (refreshCanvasMask s')) = rasterized s (lines s)"
  using assms
  by (simp add: rasterized_def refreshCanvasMask_def Let_def split: option.splits)

lemma rasterized_bitmap:
  assumes "\<not> invalid_size s" and "mask_getContext s"
  shows "bitmap (rasterized s ls) = concat (map (line_strokes ''white'') ls)"
proof -
  from assms(1) obtain c where c: "context2d s = Some c" "width c \<noteq> 0" "height c \<noteq> 0"
    by (auto simp: invalid_size_def split: option.splits)
  show ?thesis
    using c assms(2) refreshCanvasMask_returns [of "s\<lparr>lines := ls\<rparr>" c]
    by (simp add: rasterized_def drawLines_bitmap set_dims_bitmap)
qed

lemma mask_ink_union:
  assumes "\<not> invalid_size s" and "mask_getContext s"
  shows "mask_ink g s ls p = (\<exists>l\<in>set ls. mask_ink g s [l] p)"
  using assms by (simp add: mask_ink_def rasterized_bitmap painted_history)

lemma draw_fields:
  "lines (draw s) = lines s \<and> isInpaintingLoading (draw s) = isInpaintingLoading s \<and>
   render (draw s) = render s \<and> original (draw s) = original s \<and>
   effects (draw s) = effects s \<and> maskCanvas (draw s) = maskCanvas s \<and>
   onPaint_attached (draw s) = onPaint_attached s \<and>
   onMouseUp_attached (draw s) = onMouseUp_attached s \<and> firebase (draw s) = firebase s \<and>
   brushSize (draw s) = brushSize s \<and> image_file (draw s) = image_file s \<and>
   mask_getContext (draw s) = mask_getContext s"
  by (simp add: draw_def Let_def split: option.splits)

text \<open>The image \<^verbatim>\<open>draw\<close> puts on the canvas after clearing it is \<open>base_layer\<close>.\<close>

lemma draw_shows_base_layer:
  assumes "context2d s = Some c"
  shows "\<exists>c'. context2d (draw s) = Some c' \<and>
           take 2 (drop (length (bitmap c)) (bitmap c')) =
             [Clear 0 0 (width c) (height c), Image (base_layer s) 0 0]"
  using assms
  by (simp add: draw_def Let_def drawLines_bitmap clearRect_def drawImage_def base_layer_def)

section \<open>The results of the handlers\<close>

lemma onPaint_returns:
  assumes "context2d s = Some c" and "lines s \<noteq> []"
  shows "onPaint s ev = Returned (draw (s\<lparr>lines := butlast (lines s) @
           [(last (lines s))\<lparr>pts := pts (last (lines s)) @ [event_point c ev]\<rparr>]\<rparr>))"
  using assms by (simp add: onPaint_def Let_def)

lemma line_update_all:
  "(l::line)\<lparr>size_opt := a, pts := b\<rparr> = \<lparr>size_opt = a, pts = b\<rparr>"
  by (cases l) simp

lemma onmousedown_returns:
  assumes "context2d s = Some c" and "lines s \<noteq> []" and "src (original s) \<noteq> []"
  shows "onmousedown s ev = Returned (draw (s\<lparr>
           lines := butlast (lines s) @
             [\<lparr>size_opt = Some (brushSize s),
               pts = pts (last (lines s)) @ [event_point c ev]\<rparr>],
           onPaint_attached := True, onMouseUp_attached := True,
           effects := effects s @ [AddEventListener CanvasMousemoveOnPaint,
             AddEventListener WindowMouseupOnMouseUp]\<rparr>))"
  using assms
  apply (simp add: onmousedown_def onPaint_def addEventListener_def Let_def line_update_all)
  apply (rule arg_cong [where f = draw])
  apply (rule editor.equality; simp)
  done

text \<open>
  The handler of the press does not read the lock: called on a loaded image it changes the
  history whatever \<^verbatim>\<open>isInpaintingLoading\<close> is.
\<close>

lemma onmousedown_ignores_lock:
  assumes "context2d s = Some c" and "lines s \<noteq> []" and "src (original s) \<noteq> []"
  shows "lines (state_of (onmousedown s ev)) \<noteq> lines s"
proof
  assume "lines (state_of (onmousedown s ev)) = lines s"
  then have "length (pts (last (lines (state_of (onmousedown s ev))))) =
      length (pts (last (lines s)))"
    by simp
  then show False
    using onmousedown_returns [OF assms, of ev] by (simp add: draw_fields)
qed


lemma onMouseUp_resume_unlocks: "\<not> isInpaintingLoading (onMouseUp_resume en s)"
  by (simp add: onMouseUp_resume_def Let_def draw_fields setIsInpaintingLoading_def)

lemma onMouseUp_sync_returns:
  assumes "\<not> invalid_size s" and "mask_getContext s"
  shows "\<exists>s1. onMouseUp_sync s = Returned s1 \<and>
           lines s1 = lines s \<and> render s1 = render s \<and> original s1 = original s \<and>
           image_file s1 = image_file s \<and> firebase s1 = firebase s \<and>
           context2d s1 = context2d s \<and> maskCanvas s1 = rasterized s (lines s) \<and>
           isInpaintingLoading s1 \<and> \<not> onPaint_attached s1 \<and> \<not> onMouseUp_attached s1 \<and>
           effects s1 = effects s @
             [SetIsInpaintingLoading True, RemoveEventListener CanvasMousemoveOnPaint,
              RemoveEventListener WindowMouseupOnMouseUp, RefreshCanvasMask] @
             (if firebase s then [LogEvent InpaintStart] else []) @ [GetAppCheckToken]"
proof -
  from assms(1) obtain c where c: "context2d s = Some c" "width c \<noteq> 0" "height c \<noteq> 0"
    by (auto simp: invalid_size_def split: option.splits)
  let ?s3 = "removeEventListener (removeEventListener (setIsInpaintingLoading s True)
      CanvasMousemoveOnPaint) WindowMouseupOnMouseUp"
  have f: "context2d ?s3 = Some c" "mask_getContext ?s3" "lines ?s3 = lines s"
    "maskCanvas ?s3 = maskCanvas s"
    "effects ?s3 = effects s @ [SetIsInpaintingLoading True,
       RemoveEventListener CanvasMousemoveOnPaint, RemoveEventListener WindowMouseupOnMouseUp]"
    "isInpaintingLoading ?s3" "\<not> onPaint_attached ?s3" "\<not> onMouseUp_attached ?s3"
    "render ?s3 = render s" "original ?s3 = original s" "image_file ?s3 = image_file s"
    "firebase ?s3 = firebase s"
    using c assms(2) by (simp_all add: removeEventListener_def setIsInpaintingLoading_def Let_def)
  have m: "maskCanvas (state_of (refreshCanvasMask ?s3)) = rasterized s (lines s)"
    by (rule rasterized_self) (simp_all add: f c assms(2))
  have r: "refreshCanvasMask ?s3 = Returned (?s3\<lparr>effects := effects ?s3 @ [RefreshCanvasMask],
       maskCanvas := drawLines (set_height (set_width (maskCanvas ?s3) (width c)) (height c))
         (lines ?s3) ''white''\<rparr>)"
    using f(1) c(2,3) f(2) by (rule refreshCanvasMask_returns)
  show ?thesis
    using m unfolding onMouseUp_sync_def Let_def r
    by (simp add: f c logEvent_def)
qed

lemma onMouseUp_try_fields:
  "lines (state_of (onMouseUp_try en s)) = lines s \<and>
   original (state_of (onMouseUp_try en s)) = original s \<and>
   context2d (state_of (onMouseUp_try en s)) = context2d s \<and>
   firebase (state_of (onMouseUp_try en s)) = firebase s"
  by (simp add: onMouseUp_try_def loadImage_def logEvent_def Let_def
      split: sum.splits option.splits prod.splits)

lemma onMouseUp_try_threw:
  "onMouseUp_try en s = Threw e s2 \<Longrightarrow> render s2 = render s"
  by (auto simp: onMouseUp_try_def loadImage_def logEvent_def Let_def
      split: sum.splits option.splits prod.splits if_splits)

lemma onMouseUp_try_returned:
  "onMouseUp_try en s = Returned s2 \<Longrightarrow>
   \<exists>token res w h. getAppCheckToken en = Inr token \<and>
     inpaint en (image_file s) (toDataURL (maskCanvas s)) token = Inr (Some res) \<and>
     res \<noteq> [] \<and> decode en res = Inr (w, h) \<and>
     render s2 = \<lparr>src = res, img_width = w, img_height = h\<rparr>"
  by (auto simp: onMouseUp_try_def loadImage_def logEvent_def Let_def
      split: sum.splits option.splits prod.splits if_splits)

lemma onMouseUp_try_ok:
  assumes "getAppCheckToken en = Inr token"
    and "inpaint en (image_file s) (toDataURL (maskCanvas s)) token = Inr (Some res)"
    and "res \<noteq> []" and "decode en res = Inr (w, h)"
  shows "\<exists>s2. onMouseUp_try en s = Returned s2"
  using assms by (simp add: onMouseUp_try_def loadImage_def Let_def)

lemma onMouseUp_try_empty:
  assumes "getAppCheckToken en = Inr token"
    and "inpaint en (image_file s) (toDataURL (maskCanvas s)) token = Inr res"
    and "res = None \<or> res = Some []"
  shows "onMouseUp_try en s =
           Threw (Error ''empty response'')
             (s\<lparr>effects := effects s @
                [Inpaint (image_file s) (toDataURL (maskCanvas s)) token]\<rparr>)"
  using assms by (auto simp: onMouseUp_try_def Let_def)

lemma onMouseUp_try_rejected:
  assumes "getAppCheckToken en = Inr token"
    and "inpaint en (image_file s) (toDataURL (maskCanvas s)) token = Inl e"
  shows "onMouseUp_try en s =
           Threw e (s\<lparr>effects := effects s @
                [Inpaint (image_file s) (toDataURL (maskCanvas s)) token]\<rparr>)"
  using assms by (simp add: onMouseUp_try_def Let_def)

lemma onMouseUp_try_effects:
  assumes "getAppCheckToken en = Inr tok"
  shows "\<exists>rest. effects (state_of (onMouseUp_try en s)) =
           effects s @ Inpaint (image_file s) (toDataURL (maskCanvas s)) tok # rest"
  using assms
  by (simp add: onMouseUp_try_def loadImage_def logEvent_def Let_def
      split: sum.splits option.splits prod.splits)

lemma onMouseUp_catch_fields:
  "lines (onMouseUp_catch e s) = lines s \<and> render (onMouseUp_catch e s) = render s \<and>
   original (onMouseUp_catch e s) = original s"
  by (simp add: onMouseUp_catch_def logEvent_def Let_def)

lemma onMouseUp_resume_fields:
  "lines (onMouseUp_resume en s) = lines s @ [\<lparr>size_opt = None, pts = []\<rparr>] \<and>
   original (onMouseUp_resume en s) = original s \<and>
   render (onMouseUp_resume en s) =
     (case onMouseUp_try en s of Returned s2 \<Rightarrow> render s2 | Threw e s2 \<Rightarrow> render s)"
proof (cases "onMouseUp_try en s")
  case (Returned s2)
  then show ?thesis
    using onMouseUp_try_fields [of en s]
    by (simp add: onMouseUp_resume_def Let_def draw_fields setIsInpaintingLoading_def)
next
  case (Threw e s2)
  then show ?thesis
    using onMouseUp_try_fields [of en s] onMouseUp_try_threw [OF Threw]
    by (simp add: onMouseUp_resume_def Let_def draw_fields setIsInpaintingLoading_def
        onMouseUp_catch_fields)
qed

lemma onMouseUp_resume_effects:
  assumes "getAppCheckToken en = Inr tok"
  shows "\<exists>rest. effects (onMouseUp_resume en s) =
           effects s @ Inpaint (image_file s) (toDataURL (maskCanvas s)) tok # rest"
proof -
  from onMouseUp_try_effects [OF assms, of s] obtain rest where
    r: "effects (state_of (onMouseUp_try en s)) =
          effects s @ Inpaint (image_file s) (toDataURL (maskCanvas s)) tok # rest"
    by blast
  show ?thesis
  proof (cases "onMouseUp_try en s")
    case (Returned s2)
    then show ?thesis using r
      by (simp add: onMouseUp_resume_def Let_def draw_fields setIsInpaintingLoading_def)
  next
    case (Threw e s2)
    then show ?thesis using r
      by (simp add: onMouseUp_resume_def Let_def draw_fields setIsInpaintingLoading_def
          onMouseUp_catch_def logEvent_def)
  qed
qed

lemma submission_effects_prefix:
  assumes "src (original s) \<noteq> []" and "\<not> invalid_size s" and "mask_getContext s"
    and "firebase s" and "getAppCheckToken en = Inr tok"
  shows "\<exists>rest. submission_effects en s =
           [SetIsInpaintingLoading True, RemoveEventListener CanvasMousemoveOnPaint,
            RemoveEventListener WindowMouseupOnMouseUp, RefreshCanvasMask,
            LogEvent InpaintStart, GetAppCheckToken,
            Inpaint (image_file s) (toDataURL (rasterized s (lines s))) tok] @ rest"
proof -
  from onMouseUp_sync_returns [OF assms(2,3)] obtain s1 where
    s1: "onMouseUp_sync s = Returned s1" "image_file s1 = image_file s"
      "maskCanvas s1 = rasterized s (lines s)"
      "effects s1 = effects s @
         [SetIsInpaintingLoading True, RemoveEventListener CanvasMousemoveOnPaint,
          RemoveEventListener WindowMouseupOnMouseUp, RefreshCanvasMask] @
         (if firebase s then [LogEvent InpaintStart] else []) @ [GetAppCheckToken]"
    by blast
  from onMouseUp_resume_effects [OF assms(5), of s1] obtain rest where
    "effects (onMouseUp_resume en s1) =
       effects s1 @ Inpaint (image_file s1) (toDataURL (maskCanvas s1)) tok # rest"
    by blast
  then have "submission_effects en s =
      [SetIsInpaintingLoading True, RemoveEventListener CanvasMousemoveOnPaint,
       RemoveEventListener WindowMouseupOnMouseUp, RefreshCanvasMask,
       LogEvent InpaintStart, GetAppCheckToken,
       Inpaint (image_file s) (toDataURL (rasterized s (lines s))) tok] @ rest"
    using assms(1,4) s1 by (simp add: submission_effects_def onMouseUp_def)
  then show ?thesis by blast
qed









section \<open>The session, evaluated\<close>

lemmas canvas_defs = new_canvas_def reset_context_def set_width_def set_height_def
  set_lineWidth_def beginPath_def moveTo_def lineTo_def stroke_def clearRect_def drawImage_def
  toDataURL_def

lemmas handler_defs = setIsInpaintingLoading_def logEvent_def addEventListener_def
  removeEventListener_def event_point_def onPaint_def onmousedown_def loadImage_def
  onMouseUp_sync_def onMouseUp_try_def onMouseUp_catch_def onMouseUp_resume_def onMouseUp_def
  image_loaded_effect_def draw_def refreshCanvasMask_def drawLines_def drawLine_def falsy_size_def
  currentLine_def default_color_def invalid_size_def

lemma session_loaded_facts:
  "firebase session_loaded \<and> \<not> isInpaintingLoading session_loaded \<and>
   src (original session_loaded) = ''blob:photo'' \<and>
   lines session_loaded = [\<lparr>size_opt = None, pts = []\<rparr>] \<and> brushSize session_loaded = 40 \<and>
   (\<exists>c. context2d session_loaded = Some c \<and> offsetLeft c = 20 \<and> offsetTop c = 10)"
  by (simp add: session_loaded_def session_mounted_def handler_defs canvas_defs Let_def)

lemma session_drawn_lines:
  "lines session_drawn =
     [\<lparr>size_opt = Some 40, pts = [\<lparr>ptx = 100, pty = 100\<rparr>, \<lparr>ptx = 150, pty = 100\<rparr>]\<rparr>]"
  by (simp add: session_drawn_def session_pressed_def session_loaded_def session_mounted_def
      handler_defs canvas_defs Let_def)

lemma session_drawn_facts:
  "firebase session_drawn \<and> \<not> isInpaintingLoading session_drawn \<and>
   original session_drawn = \<lparr>src = ''blob:photo'', img_width = 800, img_height = 600\<rparr> \<and>
   render session_drawn = \<lparr>src = [], img_width = 0, img_height = 0\<rparr> \<and>
   image_file session_drawn = ''photo.png'' \<and> mask_getContext session_drawn \<and>
   onMouseUp_attached session_drawn \<and> onPaint_attached session_drawn \<and>
   (\<exists>c. context2d session_drawn = Some c \<and> width c = 800 \<and> height c = 600)"
  by (simp add: session_drawn_def session_pressed_def session_loaded_def session_mounted_def
      handler_defs canvas_defs Let_def)

lemma session_drawn_valid: "\<not> invalid_size session_drawn"
  using session_drawn_facts by (auto simp: invalid_size_def)

lemma session_drawn_mask:
  "toDataURL (rasterized session_drawn (lines session_drawn)) =
     (800, 600, [Stroked ''white'' ''round'' ''round'' 40
        [[\<lparr>ptx = 100, pty = 100\<rparr>, \<lparr>ptx = 100, pty = 100\<rparr>, \<lparr>ptx = 150, pty = 100\<rparr>]]])"
proof -
  from session_drawn_facts obtain c where
    c: "context2d session_drawn = Some c" "width c = 800" "height c = 600"
    and g: "mask_getContext session_drawn"
    by blast
  have "refreshCanvasMask session_drawn = Returned (session_drawn\<lparr>
      effects := effects session_drawn @ [RefreshCanvasMask],
      maskCanvas := drawLines (set_height (set_width (maskCanvas session_drawn) (width c))
        (height c)) (lines session_drawn) ''white''\<rparr>)"
    using c g by (intro refreshCanvasMask_returns) simp_all
  then show ?thesis
    using c unfolding rasterized_lines
    by (simp add: toDataURL_def drawLines_bitmap drawLines_dims set_dims_bitmap
        set_dims_dims session_drawn_lines line_strokes_def)
qed

lemma session_zero_facts:
  "src (original session_zero) = ''blob:photo'' \<and>
   (\<exists>c. context2d session_zero = Some c \<and> width c = 0 \<and> height c = 0)"
  by (simp add: session_zero_def session_mounted_def handler_defs canvas_defs Let_def)



section \<open>The properties\<close>

subsection \<open>Pointer input while a request is in flight\<close>




subsection \<open>The outcome of a submission\<close>

text \<open>
  When the pointer is released on a loaded image and the mask is rasterized,
  \<^verbatim>\<open>onMouseUp\<close> returns, whatever the collaborators answer: the history is the old one with
  one empty line appended, \<^verbatim>\<open>isInpaintingLoading\<close> is false, and the original image is
  untouched. When the \<^verbatim>\<open>try\<close> block succeeds, \<^verbatim>\<open>render\<close> is the decoded result and is the
  image \<^verbatim>\<open>draw\<close> shows; when it throws (the token, the request, an empty result or the
  decoding), \<^verbatim>\<open>render\<close> and the image \<^verbatim>\<open>draw\<close> shows are as they were. The session
  above ends so with a service that answers and with one that rejects.
\<close>

lemma submission_outcome:
  assumes "src (original s) \<noteq> []" and "\<not> invalid_size s" and "mask_getContext s"
  shows "\<exists>s1 s'. onMouseUp_sync s = Returned s1 \<and> onMouseUp en s = Returned s' \<and>
           lines s' = lines s @ [\<lparr>size_opt = None, pts = []\<rparr>] \<and>
           \<not> isInpaintingLoading s' \<and> original s' = original s \<and>
           (case onMouseUp_try en s1 of
              Returned s2 \<Rightarrow>
                (\<exists>token res w h. getAppCheckToken en = Inr token \<and>
                   inpaint en (image_file s) (toDataURL (rasterized s (lines s))) token =
                     Inr (Some res) \<and>
                   decode en res = Inr (w, h) \<and>
                   render s' = \<lparr>src = res, img_width = w, img_height = h\<rparr> \<and>
                   base_layer s' = render s')
            | Threw e s2 \<Rightarrow> render s' = render s \<and> base_layer s' = base_layer s)"
proof -
  from onMouseUp_sync_returns [OF assms(2,3)] obtain s1 where
    s1: "onMouseUp_sync s = Returned s1" "lines s1 = lines s" "render s1 = render s"
      "original s1 = original s" "image_file s1 = image_file s"
      "maskCanvas s1 = rasterized s (lines s)"
    by blast
  let ?s' = "onMouseUp_resume en s1"
  have u: "onMouseUp en s = Returned ?s'"
    using assms(1) s1(1) by (simp add: onMouseUp_def)
  have f: "lines ?s' = lines s @ [\<lparr>size_opt = None, pts = []\<rparr>]" "original ?s' = original s"
    using onMouseUp_resume_fields [of en s1] s1 by simp_all
  have "case onMouseUp_try en s1 of
      Returned s2 \<Rightarrow>
        (\<exists>token res w h. getAppCheckToken en = Inr token \<and>
           inpaint en (image_file s) (toDataURL (rasterized s (lines s))) token = Inr (Some res) \<and>
           decode en res = Inr (w, h) \<and>
           render ?s' = \<lparr>src = res, img_width = w, img_height = h\<rparr> \<and>
           base_layer ?s' = render ?s')
    | Threw e s2 \<Rightarrow> render ?s' = render s \<and> base_layer ?s' = base_layer s"
  proof (cases "onMouseUp_try en s1")
    case (Returned s2)
    from onMouseUp_try_returned [OF Returned] obtain token res w h where
      t: "getAppCheckToken en = Inr token"
        "inpaint en (image_file s1) (toDataURL (maskCanvas s1)) token = Inr (Some res)"
        "res \<noteq> []" "decode en res = Inr (w, h)"
        "render s2 = \<lparr>src = res, img_width = w, img_height = h\<rparr>"
      by blast
    have "render ?s' = \<lparr>src = res, img_width = w, img_height = h\<rparr>"
      using onMouseUp_resume_fields [of en s1] Returned t(5) by simp
    moreover from this have "base_layer ?s' = render ?s'"
      using t(3) by (simp add: base_layer_def)
    ultimately show ?thesis
      using Returned t s1 by auto
  next
    case (Threw e s2)
    have "render ?s' = render s"
      using onMouseUp_resume_fields [of en s1] Threw s1 by simp
    then show ?thesis
      using Threw f by (simp add: base_layer_def)
  qed
  then show ?thesis
    using s1(1) u f onMouseUp_resume_unlocks [of en s1] by blast
qed

lemma submission_scenarios:
  "src (original session_drawn) \<noteq> [] \<and> \<not> invalid_size session_drawn \<and>
   mask_getContext session_drawn \<and>
   (\<exists>s'. onMouseUp env_ok session_drawn = Returned s' \<and>
      lines s' = [\<lparr>size_opt = Some 40, pts = [\<lparr>ptx = 100, pty = 100\<rparr>, \<lparr>ptx = 150, pty = 100\<rparr>]\<rparr>,
                  \<lparr>size_opt = None, pts = []\<rparr>] \<and>
      \<not> isInpaintingLoading s' \<and>
      render s' = \<lparr>src = ''blob:result'', img_width = 800, img_height = 600\<rparr> \<and>
      base_layer s' = render s') \<and>
   (\<exists>s'. onMouseUp env_reject session_drawn = Returned s' \<and>
      lines s' = [\<lparr>size_opt = Some 40, pts = [\<lparr>ptx = 100, pty = 100\<rparr>, \<lparr>ptx = 150, pty = 100\<rparr>]\<rparr>,
                  \<lparr>size_opt = None, pts = []\<rparr>] \<and>
      \<not> isInpaintingLoading s' \<and>
      render s' = \<lparr>src = [], img_width = 0, img_height = 0\<rparr> \<and>
      base_layer s' = \<lparr>src = ''blob:photo'', img_width = 800, img_height = 600\<rparr>)"
proof -
  have h: "src (original session_drawn) \<noteq> []" "\<not> invalid_size session_drawn"
    "mask_getContext session_drawn"
    using session_drawn_facts session_drawn_valid by simp_all
  have b: "base_layer session_drawn = \<lparr>src = ''blob:photo'', img_width = 800, img_height = 600\<rparr>"
    using session_drawn_facts by (simp add: base_layer_def)
  from submission_outcome [OF h, of env_ok] obtain s1 s' where
    a: "onMouseUp_sync session_drawn = Returned s1" "onMouseUp env_ok session_drawn = Returned s'"
      "lines s' = lines session_drawn @ [\<lparr>size_opt = None, pts = []\<rparr>]"
      "\<not> isInpaintingLoading s'"
      "case onMouseUp_try env_ok s1 of
         Returned s2 \<Rightarrow>
           (\<exists>token res w h. getAppCheckToken env_ok = Inr token \<and>
              inpaint env_ok (image_file session_drawn)
                (toDataURL (rasterized session_drawn (lines session_drawn))) token = Inr (Some res) \<and>
              decode env_ok res = Inr (w, h) \<and>
              render s' = \<lparr>src = res, img_width = w, img_height = h\<rparr> \<and>
              base_layer s' = render s')
       | Threw e s2 \<Rightarrow> render s' = render session_drawn \<and> base_layer s' = base_layer session_drawn"
    by blast
  obtain s2 where "onMouseUp_try env_ok s1 = Returned s2"
    using onMouseUp_try_ok [of env_ok "''token''" s1 "''blob:result''" 800 600]
    by (auto simp: env_ok_def)
  with a(5) have ok: "render s' = \<lparr>src = ''blob:result'', img_width = 800, img_height = 600\<rparr>"
    "base_layer s' = render s'"
    by (auto simp: env_ok_def)
  from submission_outcome [OF h, of env_reject] obtain t1 t' where
    r: "onMouseUp_sync session_drawn = Returned t1"
      "onMouseUp env_reject session_drawn = Returned t'"
      "lines t' = lines session_drawn @ [\<lparr>size_opt = None, pts = []\<rparr>]"
      "\<not> isInpaintingLoading t'"
      "case onMouseUp_try env_reject t1 of
         Returned s2 \<Rightarrow>
           (\<exists>token res w h. getAppCheckToken env_reject = Inr token \<and>
              inpaint env_reject (image_file session_drawn)
                (toDataURL (rasterized session_drawn (lines session_drawn))) token = Inr (Some res) \<and>
              decode env_reject res = Inr (w, h) \<and>
              render t' = \<lparr>src = res, img_width = w, img_height = h\<rparr> \<and>
              base_layer t' = render t')
       | Threw e s2 \<Rightarrow> render t' = render session_drawn \<and> base_layer t' = base_layer session_drawn"
    by blast
  have "onMouseUp_try env_reject t1 = Threw (Rejection ''503'')
      (t1\<lparr>effects := effects t1 @
         [Inpaint (image_file t1) (toDataURL (maskCanvas t1)) ''token'']\<rparr>)"
    by (intro onMouseUp_try_rejected) (simp_all add: env_reject_def env_ok_def)
  with r(5) have rej: "render t' = render session_drawn" "base_layer t' = base_layer session_drawn"
    by simp_all
  show ?thesis
    using h a(2,3,4) ok r(2,3,4) rej b session_drawn_facts
    by (simp add: session_drawn_lines)
qed


subsection \<open>The order of the effects of a submission\<close>

text \<open>
  Claim C3, as the code has it. The specification puts the detaching of the listeners
  before the setting of the lock; \<^verbatim>\<open>onMouseUp\<close> sets the lock first (line 122) and detaches
  the listeners after (lines 123 and 124). On the session above the order of the
  specification does not hold.
\<close>

theorem spec_order_counterexample:
  "\<not> spec_order ''photo.png''
       (800, 600, [Stroked ''white'' ''round'' ''round'' 40
          [[\<lparr>ptx = 100, pty = 100\<rparr>, \<lparr>ptx = 100, pty = 100\<rparr>, \<lparr>ptx = 150, pty = 100\<rparr>]]])
       ''token'' (submission_effects env_ok session_drawn)"
proof -
  have "\<exists>rest. submission_effects env_ok session_drawn =
      [SetIsInpaintingLoading True, RemoveEventListener CanvasMousemoveOnPaint,
       RemoveEventListener WindowMouseupOnMouseUp, RefreshCanvasMask,
       LogEvent InpaintStart, GetAppCheckToken,
       Inpaint (image_file session_drawn)
         (toDataURL (rasterized session_drawn (lines session_drawn))) ''token''] @ rest"
    using session_drawn_facts session_drawn_valid
    by (intro submission_effects_prefix) (simp_all add: env_ok_def)
  then obtain rest where "submission_effects env_ok session_drawn =
      SetIsInpaintingLoading True # RemoveEventListener CanvasMousemoveOnPaint # rest"
    by auto
  then show ?thesis
    by (simp add: spec_order_def precedes_def)
qed

text \<open>
  Claim C3, amended. When the pointer is released on a loaded image, the mask can be
  rasterized and the token is granted, the first effects of \<^verbatim>\<open>onMouseUp\<close> are, in this
  order: the lock is set; the move listener and the release listener are detached; the
  mask is rasterized over the whole history; the start of the request is logged; the
  token is fetched; the request is issued with the file, the rasterized mask and the
  token.
\<close>

theorem submission_order:
  assumes "src (original s) \<noteq> []" and "\<not> invalid_size s" and "mask_getContext s"
    and "firebase s" and "getAppCheckToken en = Inr tok"
  shows "take 7 (submission_effects en s) =
           [SetIsInpaintingLoading True, RemoveEventListener CanvasMousemoveOnPaint,
            RemoveEventListener WindowMouseupOnMouseUp, RefreshCanvasMask,
            LogEvent InpaintStart, GetAppCheckToken,
            Inpaint (image_file s) (toDataURL (rasterized s (lines s))) tok]"
  using submission_effects_prefix [OF assms] by auto

theorem submission_order_witness:
  "src (original session_drawn) \<noteq> [] \<and> \<not> invalid_size session_drawn \<and>
   mask_getContext session_drawn \<and> firebase session_drawn \<and>
   getAppCheckToken env_ok = Inr ''token'' \<and>
   take 7 (submission_effects env_ok session_drawn) =
     [SetIsInpaintingLoading True, RemoveEventListener CanvasMousemoveOnPaint,
      RemoveEventListener WindowMouseupOnMouseUp, RefreshCanvasMask,
      LogEvent InpaintStart, GetAppCheckToken,
      Inpaint ''photo.png''
        (800, 600, [Stroked ''white'' ''round'' ''round'' 40
           [[\<lparr>ptx = 100, pty = 100\<rparr>, \<lparr>ptx = 100, pty = 100\<rparr>, \<lparr>ptx = 150, pty = 100\<rparr>]]])
        ''token'']"
proof -
  have h: "src (original session_drawn) \<noteq> []" "\<not> invalid_size session_drawn"
    "mask_getContext session_drawn" "firebase session_drawn"
    "getAppCheckToken env_ok = Inr ''token''"
    using session_drawn_facts session_drawn_valid by (simp_all add: env_ok_def)
  show ?thesis
    using h submission_order [OF h] session_drawn_facts
    by (simp add: session_drawn_mask)
qed

subsection \<open>An empty result\<close>

text \<open>
  Claim C4. When the service resolves with no result or an empty one, \<^verbatim>\<open>onMouseUp\<close> ends
  exactly as it does when the service rejects with the error \<^verbatim>\<open>empty response\<close>: the
  failure is logged and shown, and \<^verbatim>\<open>render\<close> and the image \<^verbatim>\<open>draw\<close> shows are as they
  were.
\<close>

theorem empty_result_fails:
  assumes "src (original s) \<noteq> []" and "\<not> invalid_size s" and "mask_getContext s"
    and "firebase s" and "getAppCheckToken en = Inr token"
    and "inpaint en (image_file s) (toDataURL (rasterized s (lines s))) token = Inr res"
    and "res = None \<or> res = Some []"
  shows "onMouseUp en s =
           onMouseUp (en\<lparr>inpaint := \<lambda>f m t. Inl (Error ''empty response'')\<rparr>) s \<and>
         (\<exists>s'. onMouseUp en s = Returned s' \<and>
            LogEvent (InpaintFailed (Error ''empty response'')) \<in> set (submission_effects en s) \<and>
            Alert ''empty response'' \<in> set (submission_effects en s) \<and>
            render s' = render s \<and> base_layer s' = base_layer s)"
proof -
  let ?en' = "en\<lparr>inpaint := \<lambda>f m t. Inl (Error ''empty response'')\<rparr>"
  from onMouseUp_sync_returns [OF assms(2,3)] obtain s1 where
    s1: "onMouseUp_sync s = Returned s1" "image_file s1 = image_file s"
      "maskCanvas s1 = rasterized s (lines s)" "render s1 = render s" "firebase s1 = firebase s"
      "original s1 = original s"
    and e1: "effects s1 = effects s @
         [SetIsInpaintingLoading True, RemoveEventListener CanvasMousemoveOnPaint,
          RemoveEventListener WindowMouseupOnMouseUp, RefreshCanvasMask] @
         (if firebase s then [LogEvent InpaintStart] else []) @ [GetAppCheckToken]"
    by blast
  let ?t = "s1\<lparr>effects := effects s1 @
      [Inpaint (image_file s1) (toDataURL (maskCanvas s1)) token]\<rparr>"
  have a: "onMouseUp_try en s1 = Threw (Error ''empty response'') ?t"
    using assms(5,6,7) s1 by (intro onMouseUp_try_empty) simp_all
  have b: "onMouseUp_try ?en' s1 = Threw (Error ''empty response'') ?t"
    using assms(5) by (intro onMouseUp_try_rejected) simp_all
  have r: "onMouseUp_resume en s1 = onMouseUp_resume ?en' s1"
    by (simp add: onMouseUp_resume_def a b)
  have u: "onMouseUp en s = Returned (onMouseUp_resume en s1)"
    "onMouseUp ?en' s = Returned (onMouseUp_resume en s1)"
    using assms(1) s1(1) r by (simp_all add: onMouseUp_def)
  have f: "render (onMouseUp_resume en s1) = render s"
    using onMouseUp_resume_fields [of en s1] a s1 by simp
  have o: "original (onMouseUp_resume en s1) = original s"
    using onMouseUp_resume_fields [of en s1] s1 by simp
  have l: "effects (onMouseUp_resume en s1) = effects s1 @
      [Inpaint (image_file s1) (toDataURL (maskCanvas s1)) token,
       LogEvent (InpaintFailed (Error ''empty response'')), Alert ''empty response'',
       SetIsInpaintingLoading False]"
    using assms(4) s1(5)
    by (simp add: onMouseUp_resume_def a Let_def draw_fields setIsInpaintingLoading_def
        onMouseUp_catch_def logEvent_def)
  have "LogEvent (InpaintFailed (Error ''empty response'')) \<in> set (submission_effects en s)"
    "Alert ''empty response'' \<in> set (submission_effects en s)"
    using u(1) l e1 by (simp_all add: submission_effects_def)
  then show ?thesis
    using u f o by (simp add: base_layer_def)
qed

theorem empty_result_fails_witness:
  "src (original session_drawn) \<noteq> [] \<and> \<not> invalid_size session_drawn \<and>
   mask_getContext session_drawn \<and> firebase session_drawn \<and>
   getAppCheckToken env_empty = Inr ''token'' \<and>
   inpaint env_empty (image_file session_drawn)
     (toDataURL (rasterized session_drawn (lines session_drawn))) ''token'' = Inr (Some []) \<and>
   onMouseUp env_empty session_drawn =
     onMouseUp (env_empty\<lparr>inpaint := \<lambda>f m t. Inl (Error ''empty response'')\<rparr>) session_drawn \<and>
   (\<exists>s'. onMouseUp env_empty session_drawn = Returned s' \<and>
      LogEvent (InpaintFailed (Error ''empty response''))
        \<in> set (submission_effects env_empty session_drawn) \<and>
      Alert ''empty response'' \<in> set (submission_effects env_empty session_drawn) \<and>
      render s' = \<lparr>src = [], img_width = 0, img_height = 0\<rparr> \<and>
      base_layer s' = \<lparr>src = ''blob:photo'', img_width = 800, img_height = 600\<rparr>)"
proof -
  have h: "src (original session_drawn) \<noteq> []" "\<not> invalid_size session_drawn"
    "mask_getContext session_drawn" "firebase session_drawn"
    "getAppCheckToken env_empty = Inr ''token''"
    "inpaint env_empty (image_file session_drawn)
       (toDataURL (rasterized session_drawn (lines session_drawn))) ''token'' = Inr (Some [])"
    "Some [] = None \<or> Some [] = Some ([]::string)"
    using session_drawn_facts session_drawn_valid by (simp_all add: env_empty_def env_ok_def)
  have b: "base_layer session_drawn = \<lparr>src = ''blob:photo'', img_width = 800, img_height = 600\<rparr>"
    using session_drawn_facts by (simp add: base_layer_def)
  note r = empty_result_fails [OF h]
  from r have e: "onMouseUp env_empty session_drawn =
      onMouseUp (env_empty\<lparr>inpaint := \<lambda>f m t. Inl (Error ''empty response'')\<rparr>) session_drawn"
    by (rule conjunct1)
  from r have "\<exists>s'. onMouseUp env_empty session_drawn = Returned s' \<and>
      LogEvent (InpaintFailed (Error ''empty response''))
        \<in> set (submission_effects env_empty session_drawn) \<and>
      Alert ''empty response'' \<in> set (submission_effects env_empty session_drawn) \<and>
      render s' = render session_drawn \<and> base_layer s' = base_layer session_drawn"
    by (rule conjunct2)
  then have x: "\<exists>s'. onMouseUp env_empty session_drawn = Returned s' \<and>
      LogEvent (InpaintFailed (Error ''empty response''))
        \<in> set (submission_effects env_empty session_drawn) \<and>
      Alert ''empty response'' \<in> set (submission_effects env_empty session_drawn) \<and>
      render s' = \<lparr>src = [], img_width = 0, img_height = 0\<rparr> \<and>
      base_layer s' = \<lparr>src = ''blob:photo'', img_width = 800, img_height = 600\<rparr>"
    using b session_drawn_facts by simp
  show ?thesis
    using h(1-6) e x by (intro conjI)
qed

subsection \<open>The size check of the mask rasterizer\<close>

text \<open>
  Claim C5. On a canvas of width or height zero \<^verbatim>\<open>refreshCanvasMask\<close> throws
  \<^verbatim>\<open>canvas has invalid size\<close>. On a canvas with an extent it does not throw that error,
  and when the mask canvas gives a context it returns with the mask canvas at the
  dimensions of the canvas, holding the strokes of every line of the history.
\<close>

theorem refreshCanvasMask_size_check:
  assumes "context2d s = Some c"
  shows "(width c = 0 \<or> height c = 0 \<longrightarrow>
            refreshCanvasMask s = Threw (Error ''canvas has invalid size'')
              (s\<lparr>effects := effects s @ [RefreshCanvasMask]\<rparr>)) \<and>
         (width c \<noteq> 0 \<and> height c \<noteq> 0 \<longrightarrow>
            (\<forall>s'. refreshCanvasMask s \<noteq> Threw (Error ''canvas has invalid size'') s') \<and>
            (mask_getContext s \<longrightarrow>
               (\<exists>s'. refreshCanvasMask s = Returned s' \<and>
                  width (maskCanvas s') = width c \<and> height (maskCanvas s') = height c \<and>
                  bitmap (maskCanvas s') = concat (map (line_strokes ''white'') (lines s)))))"
proof (intro conjI impI)
  assume "width c = 0 \<or> height c = 0"
  then have "invalid_size s" using assms by (simp add: invalid_size_def)
  then show "refreshCanvasMask s = Threw (Error ''canvas has invalid size'')
      (s\<lparr>effects := effects s @ [RefreshCanvasMask]\<rparr>)"
    by (rule refreshCanvasMask_invalid)
next
  assume d: "width c \<noteq> 0 \<and> height c \<noteq> 0"
  show "\<forall>s'. refreshCanvasMask s \<noteq> Threw (Error ''canvas has invalid size'') s'"
  proof (cases "mask_getContext s")
    case True
    then show ?thesis using refreshCanvasMask_returns [of s c] assms d by simp
  next
    case False
    then show ?thesis using refreshCanvasMask_no_context [of s c] assms d by simp
  qed
next
  assume d: "width c \<noteq> 0 \<and> height c \<noteq> 0" and g: "mask_getContext s"
  show "\<exists>s'. refreshCanvasMask s = Returned s' \<and>
      width (maskCanvas s') = width c \<and> height (maskCanvas s') = height c \<and>
      bitmap (maskCanvas s') = concat (map (line_strokes ''white'') (lines s))"
    using refreshCanvasMask_returns [of s c] assms d g
    by (simp add: drawLines_bitmap drawLines_dims set_dims_bitmap set_dims_dims)
qed

theorem refreshCanvasMask_size_check_witness:
  "(\<exists>c. context2d session_zero = Some c \<and> width c = 0 \<and>
      refreshCanvasMask session_zero = Threw (Error ''canvas has invalid size'')
        (session_zero\<lparr>effects := effects session_zero @ [RefreshCanvasMask]\<rparr>)) \<and>
   (\<exists>c. context2d session_drawn = Some c \<and> width c = 800 \<and> height c = 600 \<and>
      mask_getContext session_drawn \<and>
      (\<exists>s'. refreshCanvasMask session_drawn = Returned s' \<and>
         width (maskCanvas s') = 800 \<and> height (maskCanvas s') = 600 \<and>
         bitmap (maskCanvas s') =
           [Stroked ''white'' ''round'' ''round'' 40
             [[\<lparr>ptx = 100, pty = 100\<rparr>, \<lparr>ptx = 100, pty = 100\<rparr>, \<lparr>ptx = 150, pty = 100\<rparr>]]]))"
proof -
  from session_zero_facts obtain z where
    z: "context2d session_zero = Some z" "width z = 0"
    by blast
  from session_drawn_facts obtain c where
    c: "context2d session_drawn = Some c" "width c = 800" "height c = 600"
      and g: "mask_getContext session_drawn"
    by blast
  have "refreshCanvasMask session_zero = Threw (Error ''canvas has invalid size'')
      (session_zero\<lparr>effects := effects session_zero @ [RefreshCanvasMask]\<rparr>)"
    using refreshCanvasMask_size_check [OF z(1)] z(2) by simp
  moreover have "\<exists>s'. refreshCanvasMask session_drawn = Returned s' \<and>
      width (maskCanvas s') = 800 \<and> height (maskCanvas s') = 600 \<and>
      bitmap (maskCanvas s') =
        [Stroked ''white'' ''round'' ''round'' 40
          [[\<lparr>ptx = 100, pty = 100\<rparr>, \<lparr>ptx = 100, pty = 100\<rparr>, \<lparr>ptx = 150, pty = 100\<rparr>]]]"
    using refreshCanvasMask_size_check [OF c(1)] c(2,3) g
    by (simp add: session_drawn_lines line_strokes_def)
  ultimately show ?thesis
    using z c g by simp
qed

subsection \<open>The mask is the union of its strokes\<close>

text \<open>
  Claim C6. Whatever the outline of a stroke is, a pixel of the rasterized mask carries
  ink exactly when it carries ink in the mask of one of the lines of the history
  rasterized alone, and a history with the same lines in another order gives the same
  ink.
\<close>

theorem mask_union_any_order:
  assumes "\<not> invalid_size s" and "mask_getContext s"
  shows "(\<exists>s'. refreshCanvasMask (s\<lparr>lines := ls\<rparr>) = Returned s') \<and>
         mask_ink g s ls p = (\<exists>l\<in>set ls. mask_ink g s [l] p) \<and>
         (mset ls' = mset ls \<longrightarrow> mask_ink g s ls' p = mask_ink g s ls p)"
proof (intro conjI impI)
  from assms(1) obtain c where c: "context2d s = Some c" "width c \<noteq> 0" "height c \<noteq> 0"
    by (auto simp: invalid_size_def split: option.splits)
  show "\<exists>s'. refreshCanvasMask (s\<lparr>lines := ls\<rparr>) = Returned s'"
    using c assms(2) refreshCanvasMask_returns [of "s\<lparr>lines := ls\<rparr>" c] by simp
  show "mask_ink g s ls p = (\<exists>l\<in>set ls. mask_ink g s [l] p)"
    using assms by (rule mask_ink_union)
  assume "mset ls' = mset ls"
  then have "set ls' = set ls" by (rule mset_eq_setD)
  then show "mask_ink g s ls' p = mask_ink g s ls p"
    using mask_ink_union [OF assms, of g ls p] mask_ink_union [OF assms, of g ls' p] by simp
qed

theorem mask_union_any_order_witness:
  "\<not> invalid_size session_drawn \<and> mask_getContext session_drawn \<and>
   mset [\<lparr>size_opt = Some 10, pts = [\<lparr>ptx = 300, pty = 300\<rparr>]\<rparr>,
         \<lparr>size_opt = Some 40, pts = [\<lparr>ptx = 100, pty = 100\<rparr>, \<lparr>ptx = 150, pty = 100\<rparr>]\<rparr>] =
   mset [\<lparr>size_opt = Some 40, pts = [\<lparr>ptx = 100, pty = 100\<rparr>, \<lparr>ptx = 150, pty = 100\<rparr>]\<rparr>,
         \<lparr>size_opt = Some 10, pts = [\<lparr>ptx = 300, pty = 300\<rparr>]\<rparr>] \<and>
   mask_ink square_brush session_drawn
     [\<lparr>size_opt = Some 40, pts = [\<lparr>ptx = 100, pty = 100\<rparr>, \<lparr>ptx = 150, pty = 100\<rparr>]\<rparr>,
      \<lparr>size_opt = Some 10, pts = [\<lparr>ptx = 300, pty = 300\<rparr>]\<rparr>] (300, 302) \<and>
   mask_ink square_brush session_drawn
     [\<lparr>size_opt = Some 10, pts = [\<lparr>ptx = 300, pty = 300\<rparr>]\<rparr>,
      \<lparr>size_opt = Some 40, pts = [\<lparr>ptx = 100, pty = 100\<rparr>, \<lparr>ptx = 150, pty = 100\<rparr>]\<rparr>] (300, 302) \<and>
   \<not> mask_ink square_brush session_drawn
     [\<lparr>size_opt = Some 40, pts = [\<lparr>ptx = 100, pty = 100\<rparr>, \<lparr>ptx = 150, pty = 100\<rparr>]\<rparr>] (300, 302) \<and>
   mask_ink square_brush session_drawn
     [\<lparr>size_opt = Some 10, pts = [\<lparr>ptx = 300, pty = 300\<rparr>]\<rparr>] (300, 302)"
proof -
  let ?a = "\<lparr>size_opt = Some 40, pts = [\<lparr>ptx = 100, pty = 100\<rparr>, \<lparr>ptx = 150, pty = 100\<rparr>]\<rparr>"
  let ?b = "\<lparr>size_opt = Some 10, pts = [\<lparr>ptx = 300, pty = 300\<rparr>]\<rparr>"
  have h: "\<not> invalid_size session_drawn" "mask_getContext session_drawn"
    using session_drawn_facts session_drawn_valid by simp_all
  have m: "mset [?b, ?a] = mset [?a, ?b]"
    by simp
  have a: "\<not> mask_ink square_brush session_drawn [?a] (300, 302)"
    by (simp add: mask_ink_def rasterized_bitmap [OF h] line_strokes_def painted_def
        square_brush_def)
  have b: "mask_ink square_brush session_drawn [?b] (300, 302)"
    by (simp add: mask_ink_def rasterized_bitmap [OF h] line_strokes_def painted_def
        square_brush_def)
  note u = mask_union_any_order [OF h, of "[?a, ?b]" square_brush "(300, 302)" "[?b, ?a]"]
  from u have "mask_ink square_brush session_drawn [?a, ?b] (300, 302) =
      (\<exists>l\<in>set [?a, ?b]. mask_ink square_brush session_drawn [l] (300, 302))"
    by blast
  then have ab: "mask_ink square_brush session_drawn [?a, ?b] (300, 302)"
    using b by simp
  from u m have "mask_ink square_brush session_drawn [?b, ?a] (300, 302) =
      mask_ink square_brush session_drawn [?a, ?b] (300, 302)"
    by blast
  then have ba: "mask_ink square_brush session_drawn [?b, ?a] (300, 302)"
    using ab by simp
  show ?thesis
    using h m ab ba a b by (intro conjI)
qed

subsection \<open>The composite\<close>

text \<open>
  Claim C7. On an editor with a canvas, \<^verbatim>\<open>draw\<close> changes the canvas only, and adds to its
  bitmap, in this order: the clearing of the whole canvas; the image \<^verbatim>\<open>render\<close> if it has
  a source, the original image otherwise, at the origin; and the stroke of the last line
  of the history alone.
\<close>

theorem draw_composite:
  assumes "context2d s = Some c"
  shows "\<exists>c'. draw s = s\<lparr>context2d := Some c'\<rparr> \<and>
           width c' = width c \<and> height c' = height c \<and>
           bitmap c' = bitmap c @
             [Clear 0 0 (width c) (height c),
              Image (if src (render s) \<noteq> [] then render s else original s) 0 0] @
             (if lines s = [] then [] else line_strokes default_color (last (lines s)))"
proof -
  let ?c2 = "drawImage (clearRect c 0 0 (width c) (height c))
      (if src (render s) \<noteq> [] then render s else original s) 0 0"
  let ?c' = "drawLines ?c2 (currentLine s) default_color"
  have "draw s = s\<lparr>context2d := Some ?c'\<rparr>"
    using assms by (simp add: draw_def Let_def)
  moreover have "width ?c' = width c \<and> height ?c' = height c"
    by (simp add: drawLines_dims clearRect_def drawImage_def)
  moreover have "bitmap ?c' = bitmap c @
      [Clear 0 0 (width c) (height c),
       Image (if src (render s) \<noteq> [] then render s else original s) 0 0] @
      (if lines s = [] then [] else line_strokes default_color (last (lines s)))"
    by (simp add: drawLines_bitmap clearRect_def drawImage_def currentLine_def)
  ultimately show ?thesis by blast
qed

theorem draw_composite_witness:
  "\<exists>c. context2d session_drawn = Some c \<and>
     (\<exists>c'. draw session_drawn = session_drawn\<lparr>context2d := Some c'\<rparr> \<and>
        width c' = width c \<and> height c' = height c \<and>
        bitmap c' = bitmap c @
          [Clear 0 0 800 600,
           Image \<lparr>src = ''blob:photo'', img_width = 800, img_height = 600\<rparr> 0 0,
           Stroked ''rgba(255, 0, 0, 0.5)'' ''round'' ''round'' 40
             [[\<lparr>ptx = 100, pty = 100\<rparr>, \<lparr>ptx = 100, pty = 100\<rparr>, \<lparr>ptx = 150, pty = 100\<rparr>]]])"
proof -
  from session_drawn_facts obtain c where
    c: "context2d session_drawn = Some c" "width c = 800" "height c = 600"
    by blast
  from draw_composite [OF c(1)] obtain c' where
    d: "draw session_drawn = session_drawn\<lparr>context2d := Some c'\<rparr>"
    "width c' = width c" "height c' = height c"
    and "bitmap c' = bitmap c @
       [Clear 0 0 (width c) (height c),
        Image (if src (render session_drawn) \<noteq> [] then render session_drawn
               else original session_drawn) 0 0] @
       (if lines session_drawn = [] then []
        else line_strokes default_color (last (lines session_drawn)))"
    by blast
  then have "bitmap c' = bitmap c @
      [Clear 0 0 800 600,
       Image \<lparr>src = ''blob:photo'', img_width = 800, img_height = 600\<rparr> 0 0,
       Stroked ''rgba(255, 0, 0, 0.5)'' ''round'' ''round'' 40
         [[\<lparr>ptx = 100, pty = 100\<rparr>, \<lparr>ptx = 100, pty = 100\<rparr>, \<lparr>ptx = 150, pty = 100\<rparr>]]]"
    using c session_drawn_facts
    by (simp add: session_drawn_lines line_strokes_def default_color_def)
  then show ?thesis
    using c(1) d by blast
qed

subsection \<open>Lines that draw nothing\<close>

text \<open>
  Claim C8. A line without points or without a size changes nothing that \<^verbatim>\<open>drawLines\<close>
  draws, wherever it stands in the list; the mask rasterized from a history is the mask
  rasterized from the history without that line; and \<^verbatim>\<open>draw\<close> with such a line as the
  active one leaves the canvas as \<^verbatim>\<open>draw\<close> with no line does.
\<close>

theorem empty_stroke_contributes_nothing:
  assumes "pts l = [] \<or> size_opt l = None"
  shows "drawLines ctx (xs @ l # ys) color = drawLines ctx (xs @ ys) color \<and>
         refreshCanvasMask (s\<lparr>lines := xs @ l # ys\<rparr>) =
           (case refreshCanvasMask (s\<lparr>lines := xs @ ys\<rparr>) of
              Returned s' \<Rightarrow> Returned (s'\<lparr>lines := xs @ l # ys\<rparr>)
            | Threw e s' \<Rightarrow> Threw e (s'\<lparr>lines := xs @ l # ys\<rparr>)) \<and>
         context2d (draw (s\<lparr>lines := xs @ [l]\<rparr>)) = context2d (draw (s\<lparr>lines := []\<rparr>))"
proof -
  from assms have f: "pts l = [] \<or> falsy_size (size_opt l)"
    by (auto simp: falsy_size_def)
  have a: "drawLines c (xs @ l # ys) col = drawLines c (xs @ ys) col" for c col
    using f by (rule drawLines_skip)
  have b: "drawLines c [l] col = drawLines c [] col" for c col
    using drawLines_skip [OF f, of c "[]" "[]" col] by simp
  have "refreshCanvasMask (s\<lparr>lines := xs @ l # ys\<rparr>) =
      (case refreshCanvasMask (s\<lparr>lines := xs @ ys\<rparr>) of
         Returned s' \<Rightarrow> Returned (s'\<lparr>lines := xs @ l # ys\<rparr>)
       | Threw e s' \<Rightarrow> Threw e (s'\<lparr>lines := xs @ l # ys\<rparr>))"
    by (simp add: refreshCanvasMask_def Let_def a split: option.splits)
  moreover have "context2d (draw (s\<lparr>lines := xs @ [l]\<rparr>)) = context2d (draw (s\<lparr>lines := []\<rparr>))"
    by (simp add: draw_def Let_def currentLine_def b split: option.splits)
  ultimately show ?thesis using a by simp
qed

theorem empty_stroke_contributes_nothing_witness:
  "pts \<lparr>size_opt = None, pts = []\<rparr> = [] \<and>
   drawLines new_canvas
     ([\<lparr>size_opt = Some 40, pts = [\<lparr>ptx = 100, pty = 100\<rparr>]\<rparr>] @
      \<lparr>size_opt = None, pts = []\<rparr> # [\<lparr>size_opt = Some 10, pts = [\<lparr>ptx = 300, pty = 300\<rparr>]\<rparr>])
     ''white'' =
   drawLines new_canvas
     ([\<lparr>size_opt = Some 40, pts = [\<lparr>ptx = 100, pty = 100\<rparr>]\<rparr>] @
      [\<lparr>size_opt = Some 10, pts = [\<lparr>ptx = 300, pty = 300\<rparr>]\<rparr>])
     ''white'' \<and>
   context2d (draw (session_drawn\<lparr>lines :=
       [\<lparr>size_opt = Some 40, pts = [\<lparr>ptx = 100, pty = 100\<rparr>]\<rparr>] @ [\<lparr>size_opt = None, pts = []\<rparr>]\<rparr>)) =
     context2d (draw (session_drawn\<lparr>lines := []\<rparr>))"
proof -
  have h: "pts \<lparr>size_opt = None, pts = []\<rparr> = [] \<or> size_opt \<lparr>size_opt = None, pts = []\<rparr> = None"
    by simp
  show ?thesis
    using empty_stroke_contributes_nothing [OF h, of new_canvas
        "[\<lparr>size_opt = Some 40, pts = [\<lparr>ptx = 100, pty = 100\<rparr>]\<rparr>]"
        "[\<lparr>size_opt = Some 10, pts = [\<lparr>ptx = 300, pty = 300\<rparr>]\<rparr>]" "''white''" session_drawn]
    by simp
qed

subsection \<open>Rasterizing twice\<close>

text \<open>
  Claim C9. When \<^verbatim>\<open>refreshCanvasMask\<close> has returned, calling it again returns with the
  same mask canvas and the same data URL; and the data URL does not depend on what the
  mask canvas held before.
\<close>

theorem refreshCanvasMask_idempotent:
  assumes "refreshCanvasMask s = Returned s1"
  shows "\<exists>s2. refreshCanvasMask s1 = Returned s2 \<and> maskCanvas s2 = maskCanvas s1 \<and>
           toDataURL (maskCanvas s2) = toDataURL (maskCanvas s1) \<and>
           toDataURL (maskCanvas (state_of (refreshCanvasMask (s\<lparr>maskCanvas := m0\<rparr>)))) =
             toDataURL (maskCanvas s1)"
proof -
  from assms obtain c where c: "context2d s = Some c" "width c \<noteq> 0" "height c \<noteq> 0"
    and g: "mask_getContext s"
    by (auto simp: refreshCanvasMask_def Let_def split: option.splits if_splits)
  let ?m = "drawLines (set_height (set_width (maskCanvas s) (width c)) (height c)) (lines s) ''white''"
  have s1: "s1 = s\<lparr>effects := effects s @ [RefreshCanvasMask], maskCanvas := ?m\<rparr>"
    using assms refreshCanvasMask_returns [OF c g] by simp
  have r: "refreshCanvasMask s1 = Returned (s1\<lparr>effects := effects s1 @ [RefreshCanvasMask],
      maskCanvas := drawLines (set_height (set_width (maskCanvas s1) (width c)) (height c))
        (lines s1) ''white''\<rparr>)"
    using refreshCanvasMask_returns [of s1 c] c g by (simp add: s1)
  have m: "drawLines (set_height (set_width (maskCanvas s1) (width c)) (height c)) (lines s1) ''white'' = ?m"
    by (simp add: s1 set_dims_drawLines set_dims_twice)
  have o: "toDataURL (maskCanvas (state_of (refreshCanvasMask (s\<lparr>maskCanvas := m0\<rparr>)))) =
      toDataURL ?m"
    using refreshCanvasMask_returns [of "s\<lparr>maskCanvas := m0\<rparr>" c] c g
    by (simp add: toDataURL_def drawLines_bitmap drawLines_dims set_dims_bitmap set_dims_dims)
  show ?thesis
    using r m o by (simp add: s1)
qed

theorem refreshCanvasMask_idempotent_witness:
  "\<exists>s1. refreshCanvasMask session_drawn = Returned s1 \<and>
     (\<exists>s2. refreshCanvasMask s1 = Returned s2 \<and> maskCanvas s2 = maskCanvas s1 \<and>
        toDataURL (maskCanvas s2) = toDataURL (maskCanvas s1) \<and>
        toDataURL (maskCanvas (state_of (refreshCanvasMask
          (session_drawn\<lparr>maskCanvas := new_canvas\<lparr>bitmap := [Clear 0 0 1 1]\<rparr>\<rparr>)))) =
          toDataURL (maskCanvas s1))"
proof -
  from session_drawn_facts obtain c where
    c: "context2d session_drawn = Some c" "width c = 800" "height c = 600"
      and g: "mask_getContext session_drawn"
    by blast
  have "\<exists>s1. refreshCanvasMask session_drawn = Returned s1"
    using refreshCanvasMask_returns [OF c(1) _ _ g] c(2,3) by simp
  then obtain s1 where s1: "refreshCanvasMask session_drawn = Returned s1"
    by blast
  show ?thesis
    using s1 refreshCanvasMask_idempotent [OF s1, of "new_canvas\<lparr>bitmap := [Clear 0 0 1 1]\<rparr>"]
    by simp
qed

subsection \<open>The first point of a stroke\<close>

text \<open>
  Claim C10. On a loaded image \<^verbatim>\<open>canvas.onmousedown\<close> returns with the brush size set on
  the active line and with the position of the press, page coordinates minus the offset
  of the canvas, appended to its points; so the active line has a point before any move,
  and when it had none the position of the press is its first point. Both listeners are
  attached.
\<close>

theorem press_appends_point:
  assumes "context2d s = Some c" and "src (original s) \<noteq> []" and "lines s \<noteq> []"
  shows "\<exists>s'. onmousedown s ev = Returned s' \<and>
           lines s' = butlast (lines s) @
             [\<lparr>size_opt = Some (brushSize s),
               pts = pts (last (lines s)) @
                 [\<lparr>ptx = pageX ev - offsetLeft c, pty = pageY ev - offsetTop c\<rparr>]\<rparr>] \<and>
           pts (last (lines s')) \<noteq> [] \<and>
           (pts (last (lines s)) = [] \<longrightarrow>
              pts (last (lines s')) =
                [\<lparr>ptx = pageX ev - offsetLeft c, pty = pageY ev - offsetTop c\<rparr>]) \<and>
           onPaint_attached s' \<and> onMouseUp_attached s'"
  using assms onmousedown_returns [of s c ev]
  by (simp add: draw_fields event_point_def)

theorem press_appends_point_witness:
  "src (original session_loaded) \<noteq> [] \<and> lines session_loaded \<noteq> [] \<and>
   pts (last (lines session_loaded)) = [] \<and>
   (\<exists>c. context2d session_loaded = Some c \<and> offsetLeft c = 20 \<and> offsetTop c = 10) \<and>
   (\<exists>s'. onmousedown session_loaded \<lparr>pageX = 120, pageY = 110\<rparr> = Returned s' \<and>
      lines s' = [\<lparr>size_opt = Some 40, pts = [\<lparr>ptx = 100, pty = 100\<rparr>]\<rparr>] \<and>
      onPaint_attached s' \<and> onMouseUp_attached s')"
proof -
  from session_loaded_facts obtain c where
    c: "context2d session_loaded = Some c" "offsetLeft c = 20" "offsetTop c = 10"
    by blast
  have h: "context2d session_loaded = Some c" "src (original session_loaded) \<noteq> []"
    "lines session_loaded \<noteq> []"
    using session_loaded_facts c by simp_all
  from press_appends_point [OF h, of "\<lparr>pageX = 120, pageY = 110\<rparr>"] obtain s' where
    "onmousedown session_loaded \<lparr>pageX = 120, pageY = 110\<rparr> = Returned s'"
    "lines s' = butlast (lines session_loaded) @
       [\<lparr>size_opt = Some (brushSize session_loaded),
         pts = pts (last (lines session_loaded)) @
           [\<lparr>ptx = pageX \<lparr>pageX = 120, pageY = 110\<rparr> - offsetLeft c,
             pty = pageY \<lparr>pageX = 120, pageY = 110\<rparr> - offsetTop c\<rparr>]\<rparr>]"
    "onPaint_attached s'" "onMouseUp_attached s'"
    by blast
  then show ?thesis
    using h c session_loaded_facts by simp
qed

end
